theory Spec2Isabelle
  imports Main
begin

section \<open>Server side: the data model\<close>

text \<open>
  The Eloquent models \<^verbatim>\<open>TaskList\<close> (table \<^verbatim>\<open>lists\<close>) and \<^verbatim>\<open>Task\<close>. Several
  tables and forms share column names, so every field carries a prefix naming its record:
  \<open>tl_\<close> for a row of \<^verbatim>\<open>lists\<close>, \<open>tk_\<close> for a row of \<^verbatim>\<open>tasks\<close>. Timestamps are
  natural numbers (a clock reading), identifiers are natural numbers. A table is the list
  of its rows in the order in which the database returns them when a query has no
  \<^verbatim>\<open>ORDER BY\<close>; a newly inserted row goes to the end.
\<close>

record TaskList =
  tl_id :: nat
  tl_title :: string
  tl_description :: "string option"
  tl_user_id :: nat
  tl_created_at :: nat
  tl_updated_at :: nat

record Task =
  tk_id :: nat
  tk_title :: string
  tk_is_completed :: bool
  tk_lists_id :: nat
  tk_created_at :: nat
  tk_updated_at :: nat

subsection \<open>Requests, validation and responses\<close>

text \<open>
  A field of the request body as the controller receives it: absent, \<^verbatim>\<open>null\<close>, a string
  (one \<open>char\<close> per character), or any other value (a number, a boolean, an array).
\<close>

datatype input = Missing | Null | Str string | Other

record Request =
  req_title :: input
  req_description :: input

text \<open>
  PHP's \<^verbatim>\<open>trim\<close> strips space, tab, line feed, carriage return, NUL and vertical tab from
  both ends of a string.
\<close>

definition php_space :: "char \<Rightarrow> bool" where
  "php_space c \<longleftrightarrow> c \<in> {CHR '' '', CHR 0x09, CHR 0x0A, CHR 0x0D, CHR 0x00, CHR 0x0B}"

definition trim :: "string \<Rightarrow> string" where
  "trim s = rev (dropWhile php_space (rev (dropWhile php_space s)))"

text \<open>
  The rule \<^verbatim>\<open>required\<close>: the validator rejects \<^verbatim>\<open>null\<close> (also an absent field) and a
  string that is empty once trimmed. A value that is not a string passes \<^verbatim>\<open>required\<close>
  here and is then rejected by \<^verbatim>\<open>string\<close>.
\<close>

definition validateRequired :: "input \<Rightarrow> bool" where
  "validateRequired v =
     (case v of Missing \<Rightarrow> False | Null \<Rightarrow> False | Str s \<Rightarrow> trim s \<noteq> [] | Other \<Rightarrow> True)"

text \<open>
  \<^verbatim>\<open>'title' => 'required|string|max:255'\<close>: the first rule that fails, if any. Once
  \<^verbatim>\<open>required\<close> has failed the validator stops checking the field.
\<close>

definition validate_title :: "input \<Rightarrow> string option" where
  "validate_title v =
     (if \<not> validateRequired v then Some ''required''
      else case v of
             Str s \<Rightarrow> if length s \<le> 255 then None else Some ''max''
           | _ \<Rightarrow> Some ''string'')"

text \<open>
  \<^verbatim>\<open>'description' => 'nullable|string'\<close>: an absent field, \<^verbatim>\<open>null\<close> and any string pass.
\<close>

definition validate_description :: "input \<Rightarrow> string option" where
  "validate_description v = (case v of Other \<Rightarrow> Some ''string'' | _ \<Rightarrow> None)"

text \<open>
  The validated data: the title, and the description when the request has the key
  (\<open>None\<close>: no key; \<open>Some None\<close>: \<^verbatim>\<open>null\<close>).
\<close>

record Validated =
  v_title :: string
  v_description :: "string option option"

datatype failure = NotFound | ValidationError "(string \<times> string) list"

text \<open>
  A redirect to a named route with the flashed session data
  (\<^verbatim>\<open>redirect()->route(..)->with(key, message)\<close>).
\<close>

record Redirect =
  route :: string
  flashed :: "(string \<times> string) list"

definition field_errors :: "Request \<Rightarrow> (string \<times> string) list" where
  "field_errors r =
     (case validate_title (req_title r) of None \<Rightarrow> [] | Some e \<Rightarrow> [(''title'', e)]) @
     (case validate_description (req_description r) of None \<Rightarrow> [] | Some e \<Rightarrow> [(''description'', e)])"

definition validate :: "Request \<Rightarrow> failure + Validated" where
  "validate r =
     (if field_errors r \<noteq> [] then Inl (ValidationError (field_errors r))
      else Inr \<lparr>v_title = (case req_title r of Str s \<Rightarrow> s | _ \<Rightarrow> []),
                v_description = (case req_description r of
                                   Missing \<Rightarrow> None | Str s \<Rightarrow> Some (Some s) | _ \<Rightarrow> Some None)\<rparr>)"

subsection \<open>ListController\<close>

text \<open>\<^verbatim>\<open>index\<close>: \<^verbatim>\<open>TaskList::where('user_id', Auth::id())->get()\<close>, with no ordering.\<close>

definition ListController_index :: "nat \<Rightarrow> TaskList list \<Rightarrow> TaskList list" where
  "ListController_index auth_id rows = filter (\<lambda>l. tl_user_id l = auth_id) rows"

text \<open>The auto-increment key of the next row.\<close>

definition next_id :: "TaskList list \<Rightarrow> nat" where
  "next_id rows = Suc (foldr max (map tl_id rows) 0)"

text \<open>
  \<^verbatim>\<open>TaskList::create($validated)\<close> with \<^verbatim>\<open>user_id\<close> added: every attribute is fillable,
  a description without a key is stored as \<^verbatim>\<open>NULL\<close>, both timestamps are the current time.
\<close>

definition TaskList_create :: "nat \<Rightarrow> Validated \<Rightarrow> nat \<Rightarrow> TaskList list \<Rightarrow> TaskList" where
  "TaskList_create now v uid rows =
     \<lparr>tl_id = next_id rows, tl_title = v_title v,
      tl_description = (case v_description v of None \<Rightarrow> None | Some d \<Rightarrow> d),
      tl_user_id = uid, tl_created_at = now, tl_updated_at = now\<rparr>"

definition ListController_store ::
  "nat \<Rightarrow> nat \<Rightarrow> Request \<Rightarrow> TaskList list \<Rightarrow> (failure + Redirect) \<times> TaskList list" where
  "ListController_store auth_id now r rows =
     (case validate r of
        Inl e \<Rightarrow> (Inl e, rows)
      | Inr v \<Rightarrow>
          (Inr \<lparr>route = ''lists.index'', flashed = [(''success'', ''List Created Successfully'')]\<rparr>,
           rows @ [TaskList_create now v auth_id rows]))"

text \<open>
  \<^verbatim>\<open>$list->update($validated)\<close>: the attributes are filled in; when none of them differs
  from the stored row nothing is written, otherwise \<^verbatim>\<open>updated_at\<close> is set and the row
  with the model's key is replaced.
\<close>

definition fill :: "TaskList \<Rightarrow> Validated \<Rightarrow> nat \<Rightarrow> TaskList" where
  "fill l v uid =
     l\<lparr>tl_title := v_title v,
       tl_description := (case v_description v of None \<Rightarrow> tl_description l | Some d \<Rightarrow> d),
       tl_user_id := uid\<rparr>"

definition TaskList_update :: "nat \<Rightarrow> TaskList \<Rightarrow> Validated \<Rightarrow> nat \<Rightarrow> TaskList list \<Rightarrow> TaskList list" where
  "TaskList_update now l v uid rows =
     (if fill l v uid = l then rows
      else map (\<lambda>r. if tl_id r = tl_id l then (fill l v uid)\<lparr>tl_updated_at := now\<rparr> else r) rows)"

definition ListController_update ::
  "nat \<Rightarrow> nat \<Rightarrow> Request \<Rightarrow> TaskList \<Rightarrow> TaskList list \<Rightarrow> (failure + Redirect) \<times> TaskList list" where
  "ListController_update auth_id now r l rows =
     (case validate r of
        Inl e \<Rightarrow> (Inl e, rows)
      | Inr v \<Rightarrow>
          (Inr \<lparr>route = ''lists.index'', flashed = [(''success'', ''List updated successfully'')]\<rparr>,
           TaskList_update now l v auth_id rows))"

text \<open>\<^verbatim>\<open>destroy\<close>: \<^verbatim>\<open>$list->delete()\<close>; the caller's identity is not consulted.\<close>

definition ListController_destroy ::
  "TaskList \<Rightarrow> TaskList list \<Rightarrow> (failure + Redirect) \<times> TaskList list" where
  "ListController_destroy l rows =
     (Inr \<lparr>route = ''lists.index'', flashed = [(''success'', ''List Deleted Successfully'')]\<rparr>,
      filter (\<lambda>r. tl_id r \<noteq> tl_id l) rows)"

text \<open>
  Route model binding: the \<^verbatim>\<open>TaskList $list\<close> parameter of \<^verbatim>\<open>update\<close> and \<^verbatim>\<open>destroy\<close>
  is resolved from the key in the URL alone, and a key with no row answers 404.
\<close>

definition resolve :: "nat \<Rightarrow> TaskList list \<Rightarrow> TaskList option" where
  "resolve k rows = find (\<lambda>l. tl_id l = k) rows"

definition PUT_lists ::
  "nat \<Rightarrow> nat \<Rightarrow> nat \<Rightarrow> Request \<Rightarrow> TaskList list \<Rightarrow> (failure + Redirect) \<times> TaskList list" where
  "PUT_lists auth_id now k r rows =
     (case resolve k rows of
        None \<Rightarrow> (Inl NotFound, rows)
      | Some l \<Rightarrow> ListController_update auth_id now r l rows)"

definition DELETE_lists ::
  "nat \<Rightarrow> nat \<Rightarrow> TaskList list \<Rightarrow> (failure + Redirect) \<times> TaskList list" where
  "DELETE_lists auth_id k rows =
     (case resolve k rows of
        None \<Rightarrow> (Inl NotFound, rows)
      | Some l \<Rightarrow> ListController_destroy l rows)"

definition GET_lists :: "nat \<Rightarrow> TaskList list \<Rightarrow> TaskList list" where
  "GET_lists auth_id rows = ListController_index auth_id rows"

subsection \<open>DashboardController\<close>

text \<open>
  \<^verbatim>\<open>orderBy('updated_at', 'desc')->orderBy('created_at', 'desc')\<close>: descending by the
  pair of timestamps, the first compared first.
\<close>

definition newer :: "nat \<times> nat \<Rightarrow> nat \<times> nat \<Rightarrow> bool" where
  "newer a b \<longleftrightarrow> fst a > fst b \<or> (fst a = fst b \<and> snd a \<ge> snd b)"

fun insert_desc :: "('a \<Rightarrow> nat \<times> nat) \<Rightarrow> 'a \<Rightarrow> 'a list \<Rightarrow> 'a list" where
  "insert_desc k x [] = [x]"
| "insert_desc k x (y # ys) = (if newer (k x) (k y) then x # y # ys else y # insert_desc k x ys)"

fun orderBy_desc :: "('a \<Rightarrow> nat \<times> nat) \<Rightarrow> 'a list \<Rightarrow> 'a list" where
  "orderBy_desc k [] = []"
| "orderBy_desc k (x # xs) = insert_desc k x (orderBy_desc k xs)"

text \<open>\<^verbatim>\<open>whereHas('list', user_id = $user->id)\<close>: the task's list exists and is the user's.\<close>

definition whereHas_list :: "nat \<Rightarrow> TaskList list \<Rightarrow> Task \<Rightarrow> bool" where
  "whereHas_list uid rows t = list_ex (\<lambda>l. tl_id l = tk_lists_id t \<and> tl_user_id l = uid) rows"

text \<open>\<^verbatim>\<open>$tasks->where('is_completed', $b)\<close> on the collection.\<close>

definition where_is_completed :: "bool \<Rightarrow> Task list \<Rightarrow> Task list" where
  "where_is_completed b ts = filter (\<lambda>t. tk_is_completed t = b) ts"

record Stats =
  totalLists :: nat
  totalTasks :: nat
  completedTasks :: nat
  pendingTasks :: nat

record Dashboard =
  d_stats :: Stats
  d_lists :: "TaskList list"
  d_tasks :: "Task list"

definition DashboardController_index :: "nat \<Rightarrow> TaskList list \<Rightarrow> Task list \<Rightarrow> Dashboard" where
  "DashboardController_index uid all_lists all_tasks =
     (let ls = orderBy_desc (\<lambda>l. (tl_updated_at l, tl_created_at l))
                 (filter (\<lambda>l. tl_user_id l = uid) all_lists);
          ts = orderBy_desc (\<lambda>t. (tk_updated_at t, tk_created_at t))
                 (filter (whereHas_list uid all_lists) all_tasks)
      in \<lparr>d_stats = \<lparr>totalLists = length ls, totalTasks = length ts,
                    completedTasks = length (where_is_completed True ts),
                    pendingTasks = length (where_is_completed False ts)\<rparr>,
          d_lists = ls, d_tasks = ts\<rparr>)"

section \<open>Client side\<close>

subsection \<open>Inertia's form helper\<close>

text \<open>
  A request of the form helper: the method and, for \<^verbatim>\<open>put\<close> and \<^verbatim>\<open>delete\<close>, the key in the
  URL.
\<close>

datatype visit = Post | Put nat | Delete nat

text \<open>
  \<^verbatim>\<open>useForm\<close> holds the form's data and the flag \<^verbatim>\<open>processing\<close>. The field
  \<open>in_flight\<close> is not a field of the helper: it lists, oldest first, the mutations this
  form has sent that the server has not settled yet. The router has one active visit. The
  helper sets \<^verbatim>\<open>processing\<close> when a visit of the form starts and clears it when that visit
  ends for the client: answered, with success or with errors, or interrupted because
  another visit started. An interrupted request has been sent all the same, and nothing
  recalls it: it stays in \<open>in_flight\<close> until the server has settled it.
\<close>

record 'd useForm =
  data :: 'd
  processing :: bool
  in_flight :: "visit list"

text \<open>
  A visit of the form starts: a visit still active is interrupted (its \<^verbatim>\<open>onCancel\<close> and
  \<^verbatim>\<open>onFinish\<close> clear \<^verbatim>\<open>processing\<close>), then \<^verbatim>\<open>onStart\<close> sets \<^verbatim>\<open>processing\<close>, and the request
  is sent.
\<close>

definition start_visit :: "visit \<Rightarrow> 'd useForm \<Rightarrow> 'd useForm" where
  "start_visit v f = f\<lparr>processing := True, in_flight := in_flight f @ [v]\<rparr>"

text \<open>Another visit of the page starts while the form's visit is active.\<close>

definition interrupt_visit :: "'d useForm \<Rightarrow> 'd useForm" where
  "interrupt_visit f = f\<lparr>processing := False\<rparr>"

text \<open>
  The visit the client is waiting for: the last one sent, while \<^verbatim>\<open>processing\<close> is set.
  Its answer ends it.
\<close>

definition active_visit :: "'d useForm \<Rightarrow> visit option" where
  "active_visit f =
     (if processing f then (case rev (in_flight f) of [] \<Rightarrow> None | v # _ \<Rightarrow> Some v) else None)"

definition finish_visit :: "'d useForm \<Rightarrow> 'd useForm" where
  "finish_visit f =
     (if processing f then f\<lparr>processing := False, in_flight := butlast (in_flight f)\<rparr> else f)"

text \<open>
  The server settles the oldest request that was interrupted; the client is not waiting
  for it and nothing changes on the page.
\<close>

definition settle :: "'d useForm \<Rightarrow> 'd useForm" where
  "settle f =
     (if (if processing f then 1 else 0) < length (in_flight f)
      then f\<lparr>in_flight := tl (in_flight f)\<rparr> else f)"


text \<open>
  \<^verbatim>\<open>reset()\<close> puts back the form's defaults, given as a parameter. The pages below pass
  the values the form was created with; no property proved below depends on which values
  \<^verbatim>\<open>reset\<close> puts back.
\<close>

definition reset :: "'d \<Rightarrow> 'd useForm \<Rightarrow> 'd useForm" where
  "reset defaults f = f\<lparr>data := defaults\<rparr>"

text \<open>JavaScript's \<^verbatim>\<open>x || ''\<close> on a string that may be \<^verbatim>\<open>null\<close>.\<close>

definition or_empty :: "string option \<Rightarrow> string" where
  "or_empty x = (case x of None \<Rightarrow> [] | Some s \<Rightarrow> s)"

text \<open>\<^verbatim>\<open>toString()\<close> of a non-negative whole number: its decimal digits.\<close>

function toString :: "nat \<Rightarrow> string" where
  "toString n =
     (if n < 10 then [char_of (48 + n)] else toString (n div 10) @ [char_of (48 + n mod 10)])"
  by pat_completeness auto
termination
  by (relation "measure (\<lambda>n. n)") auto

declare toString.simps [simp del]

subsection \<open>The Lists page: dialog and form\<close>

record ListItem =
  li_id :: nat
  li_title :: string
  li_description :: "string option"

record ListFormData =
  lf_title :: string
  lf_description :: string

definition listForm_defaults :: ListFormData where
  "listForm_defaults = \<lparr>lf_title = [], lf_description = []\<rparr>"

record ListsIndex =
  isDialogOpen :: bool
  editingList :: "ListItem option"
  listForm :: "ListFormData useForm"


definition closeDialogAndResetForm :: "ListsIndex \<Rightarrow> ListsIndex" where
  "closeDialogAndResetForm s =
     s\<lparr>isDialogOpen := False, listForm := reset listForm_defaults (listForm s),
       editingList := None\<rparr>"


definition handleDialogOpenChange :: "bool \<Rightarrow> ListsIndex \<Rightarrow> ListsIndex" where
  "handleDialogOpenChange open s =
     (if \<not> open then closeDialogAndResetForm (s\<lparr>isDialogOpen := open\<rparr>)
      else s\<lparr>isDialogOpen := open\<rparr>)"

definition onAddList :: "ListsIndex \<Rightarrow> ListsIndex" where
  "onAddList s = s\<lparr>isDialogOpen := True\<rparr>"












subsection \<open>The Tasks page: dialog and form\<close>

record TaskItem =
  ti_id :: nat
  ti_title :: string
  ti_description :: "string option"
  ti_is_completed :: bool
  ti_due_date :: "string option"
  ti_lists_id :: nat

record TaskFormData =
  tf_title :: string
  tf_description :: string
  tf_due_date :: string
  tf_lists_id :: string
  tf_is_completed :: bool

definition taskForm_defaults :: TaskFormData where
  "taskForm_defaults =
     \<lparr>tf_title = [], tf_description = [], tf_due_date = [], tf_lists_id = [],
      tf_is_completed = False\<rparr>"

record Tasksindex =
  isOpen :: bool
  editingTask :: "TaskItem option"
  form :: "TaskFormData useForm"

definition Tasksindex_initial :: Tasksindex where
  "Tasksindex_initial =
     \<lparr>isOpen = False, editingTask = None,
      form = \<lparr>data = taskForm_defaults, processing = False, in_flight = []\<rparr>\<rparr>"

definition setIsOpen :: "bool \<Rightarrow> Tasksindex \<Rightarrow> Tasksindex" where
  "setIsOpen b s = s\<lparr>isOpen := b\<rparr>"

definition handleEdit :: "TaskItem \<Rightarrow> Tasksindex \<Rightarrow> Tasksindex" where
  "handleEdit t s =
     s\<lparr>editingTask := Some t,
       form := (form s)\<lparr>data :=
         \<lparr>tf_title = ti_title t, tf_description = or_empty (ti_description t),
          tf_due_date = or_empty (ti_due_date t), tf_lists_id = toString (ti_lists_id t),
          tf_is_completed = ti_is_completed t\<rparr>\<rparr>,
       isOpen := True\<rparr>"

definition handleSubmit :: "Tasksindex \<Rightarrow> Tasksindex" where
  "handleSubmit s =
     (case editingTask s of
        Some t \<Rightarrow> s\<lparr>form := start_visit (Put (ti_id t)) (form s)\<rparr>
      | None \<Rightarrow> s\<lparr>form := start_visit Post (form s)\<rparr>)"

definition handleDelete :: "nat \<Rightarrow> Tasksindex \<Rightarrow> Tasksindex" where
  "handleDelete taskId s = s\<lparr>form := start_visit (Delete taskId) (form s)\<rparr>"

text \<open>The submit button of the Tasks dialog: \<^verbatim>\<open>disabled={processing}\<close>.\<close>

definition Tasksindex_submit_disabled :: "Tasksindex \<Rightarrow> bool" where
  "Tasksindex_submit_disabled s = processing (form s)"

text \<open>
  \<^verbatim>\<open>onSuccess\<close> of \<^verbatim>\<open>put\<close> closes the dialog, resets the form and clears the edited task;
  \<^verbatim>\<open>onSuccess\<close> of \<^verbatim>\<open>post\<close> closes the dialog and resets the form; \<^verbatim>\<open>delete\<close> has none.
\<close>

definition Tasksindex_onSuccess :: "Tasksindex \<Rightarrow> Tasksindex" where
  "Tasksindex_onSuccess s =
     (case active_visit (form s) of
        None \<Rightarrow> s
      | Some (Put k) \<Rightarrow>
          s\<lparr>isOpen := False, form := reset taskForm_defaults (finish_visit (form s)),
            editingTask := None\<rparr>
      | Some Post \<Rightarrow> s\<lparr>isOpen := False, form := reset taskForm_defaults (finish_visit (form s))\<rparr>
      | Some (Delete k) \<Rightarrow> s\<lparr>form := finish_visit (form s)\<rparr>)"

definition Tasksindex_onError :: "Tasksindex \<Rightarrow> Tasksindex" where
  "Tasksindex_onError s = s\<lparr>form := finish_visit (form s)\<rparr>"

datatype task_input =
  SetTitle string | SetDescription string | SetDueDate string | SetListsId string
  | SetIsCompleted bool

definition setData :: "task_input \<Rightarrow> Tasksindex \<Rightarrow> Tasksindex" where
  "setData i s =
     s\<lparr>form := (form s)\<lparr>data :=
         (case i of
            SetTitle v \<Rightarrow> (data (form s))\<lparr>tf_title := v\<rparr>
          | SetDescription v \<Rightarrow> (data (form s))\<lparr>tf_description := v\<rparr>
          | SetDueDate v \<Rightarrow> (data (form s))\<lparr>tf_due_date := v\<rparr>
          | SetListsId v \<Rightarrow> (data (form s))\<lparr>tf_lists_id := v\<rparr>
          | SetIsCompleted b \<Rightarrow> (data (form s))\<lparr>tf_is_completed := b\<rparr>)\<rparr>\<rparr>"

text \<open>
  The events of the Tasks page. \<open>DialogOpenChange\<close> is the dialog's \<^verbatim>\<open>onOpenChange\<close>,
  which is \<^verbatim>\<open>setIsOpen\<close> itself (the trigger button sends \<open>True\<close>, closing sends \<open>False\<close>).
  A submit counts only while the dialog is open, the button is enabled and the title
  input, which is \<^verbatim>\<open>required\<close>, is not empty. \<open>Navigate\<close> is a search, filter or page
  request: a visit of the router, which interrupts the form's active visit.
  \<open>TaskSucceeded\<close> and \<open>TaskFailed\<close> are the answers to the active visit; \<open>TaskSettled\<close>
  is the server settling an interrupted request.
\<close>

datatype tasks_event =
  DialogOpenChange bool | Edit TaskItem | Input task_input | SubmitTask | DeleteTask nat
  | Navigate | TaskSucceeded | TaskFailed | TaskSettled

fun Tasksindex_step :: "Tasksindex \<Rightarrow> tasks_event \<Rightarrow> Tasksindex" where
  "Tasksindex_step s (DialogOpenChange b) = setIsOpen b s"
| "Tasksindex_step s (Edit t) = handleEdit t s"
| "Tasksindex_step s (Input i) = setData i s"
| "Tasksindex_step s SubmitTask =
     (if isOpen s \<and> \<not> Tasksindex_submit_disabled s \<and> tf_title (data (form s)) \<noteq> []
      then handleSubmit s else s)"
| "Tasksindex_step s (DeleteTask k) = handleDelete k s"
| "Tasksindex_step s Navigate = s\<lparr>form := interrupt_visit (form s)\<rparr>"
| "Tasksindex_step s TaskSucceeded = Tasksindex_onSuccess s"
| "Tasksindex_step s TaskFailed = Tasksindex_onError s"
| "Tasksindex_step s TaskSettled = s\<lparr>form := settle (form s)\<rparr>"


definition Tasksindex_run :: "tasks_event list \<Rightarrow> Tasksindex" where
  "Tasksindex_run evs = foldl Tasksindex_step Tasksindex_initial evs"

subsection \<open>Flash messages and toasts\<close>

text \<open>
  The \<^verbatim>\<open>flash\<close> prop, \<^verbatim>\<open>{ success?: string; error?: string }\<close>, itself optional. A value is
  taken by an \<^verbatim>\<open>if\<close> when it is truthy: present and not the empty string.
\<close>

record Flash =
  f_success :: "string option"
  f_error :: "string option"

definition truthy :: "string option \<Rightarrow> string option" where
  "truthy x = (case x of None \<Rightarrow> None | Some s \<Rightarrow> if s = [] then None else Some s)"

datatype toast_type = success | error

text \<open>
  The toast of the Tasks page: three state cells, and \<open>timer\<close>, the milliseconds left on
  the pending \<^verbatim>\<open>setTimeout\<close> of the auto-hide effect (\<open>None\<close>: no timer pending).
\<close>

record TasksToast =
  showToast :: bool
  toastMessage :: string
  toastType :: toast_type
  timer :: "nat option"

definition Tasksindex_flash_effect :: "Flash option \<Rightarrow> TasksToast \<Rightarrow> TasksToast" where
  "Tasksindex_flash_effect flash t =
     (case truthy (Option.bind flash f_success) of
        Some m \<Rightarrow> t\<lparr>toastMessage := m, toastType := success, showToast := True\<rparr>
      | None \<Rightarrow>
          (case truthy (Option.bind flash f_error) of
             Some m \<Rightarrow> t\<lparr>toastMessage := m, toastType := error, showToast := True\<rparr>
           | None \<Rightarrow> t))"

text \<open>
  The auto-hide effect depends on \<^verbatim>\<open>[showToast]\<close>: it runs again only after a render in
  which \<^verbatim>\<open>showToast\<close> differs from its value at the previous render (\<open>prev\<close>). Then the
  cleanup of the previous run clears its timer, and the body starts a timer of 3000 ms
  when the toast is shown.
\<close>

definition Tasksindex_timer_effect :: "bool \<Rightarrow> TasksToast \<Rightarrow> TasksToast" where
  "Tasksindex_timer_effect prev t =
     (if showToast t = prev then t
      else if showToast t then t\<lparr>timer := Some 3000\<rparr> else t\<lparr>timer := None\<rparr>)"

text \<open>A render with a new \<^verbatim>\<open>flash\<close> prop: the flash effect, then the auto-hide effect.\<close>

definition Tasksindex_receive_flash :: "Flash option \<Rightarrow> TasksToast \<Rightarrow> TasksToast" where
  "Tasksindex_receive_flash flash t =
     Tasksindex_timer_effect (showToast t) (Tasksindex_flash_effect flash t)"

text \<open>
  \<open>d\<close> milliseconds pass with no other event. A pending timer with more than \<open>d\<close> left
  keeps running; otherwise it fires within the interval, its callback \<^verbatim>\<open>setShowToast(false)\<close>
  runs and the effects of the next render follow.
\<close>

definition Tasksindex_elapse :: "nat \<Rightarrow> TasksToast \<Rightarrow> TasksToast" where
  "Tasksindex_elapse d t =
     (case timer t of
        None \<Rightarrow> t
      | Some r \<Rightarrow>
          if d < r then t\<lparr>timer := Some (r - d)\<rparr>
          else Tasksindex_timer_effect (showToast t) (t\<lparr>timer := None, showToast := False\<rparr>))"

text \<open>Unmounting runs the effect's cleanup, \<^verbatim>\<open>clearTimeout(timer)\<close>.\<close>

definition Tasksindex_unmount :: "TasksToast \<Rightarrow> TasksToast" where
  "Tasksindex_unmount t = t\<lparr>timer := None\<rparr>"

text \<open>What is rendered: \<^verbatim>\<open>{showToast && (<div ...>{toastMessage}</div>)}\<close>.\<close>

definition Tasksindex_toast_view :: "TasksToast \<Rightarrow> (toast_type \<times> string) option" where
  "Tasksindex_toast_view t = (if showToast t then Some (toastType t, toastMessage t) else None)"

text \<open>
  The toast of the Lists page is one state cell, the object \<^verbatim>\<open>{ show, message, type }\<close>,
  set through the function \<^verbatim>\<open>showToast\<close>; \<open>toast_timer\<close> is the pending timer as above.
\<close>

record ListsToast =
  toast_show :: bool
  toast_message :: string
  toast_type :: toast_type
  toast_timer :: "nat option"

definition showToast_fn :: "string \<Rightarrow> toast_type \<Rightarrow> ListsToast \<Rightarrow> ListsToast" where
  "showToast_fn m ty t = t\<lparr>toast_show := True, toast_message := m, toast_type := ty\<rparr>"

definition ListsIndex_flash_effect :: "Flash option \<Rightarrow> ListsToast \<Rightarrow> ListsToast" where
  "ListsIndex_flash_effect flash t =
     (case truthy (Option.bind flash f_success) of
        Some m \<Rightarrow> showToast_fn m success t
      | None \<Rightarrow>
          (case truthy (Option.bind flash f_error) of
             Some m \<Rightarrow> showToast_fn m error t
           | None \<Rightarrow> t))"

definition ListsIndex_timer_effect :: "bool \<Rightarrow> ListsToast \<Rightarrow> ListsToast" where
  "ListsIndex_timer_effect prev t =
     (if toast_show t = prev then t
      else if toast_show t then t\<lparr>toast_timer := Some 3000\<rparr> else t\<lparr>toast_timer := None\<rparr>)"

definition ListsIndex_receive_flash :: "Flash option \<Rightarrow> ListsToast \<Rightarrow> ListsToast" where
  "ListsIndex_receive_flash flash t =
     ListsIndex_timer_effect (toast_show t) (ListsIndex_flash_effect flash t)"

definition ListsIndex_elapse :: "nat \<Rightarrow> ListsToast \<Rightarrow> ListsToast" where
  "ListsIndex_elapse d t =
     (case toast_timer t of
        None \<Rightarrow> t
      | Some r \<Rightarrow>
          if d < r then t\<lparr>toast_timer := Some (r - d)\<rparr>
          else ListsIndex_timer_effect (toast_show t) (t\<lparr>toast_timer := None, toast_show := False\<rparr>))"

definition ListsIndex_unmount :: "ListsToast \<Rightarrow> ListsToast" where
  "ListsIndex_unmount t = t\<lparr>toast_timer := None\<rparr>"

definition ListsIndex_toast_view :: "ListsToast \<Rightarrow> (toast_type \<times> string) option" where
  "ListsIndex_toast_view t =
     (if toast_show t then Some (toast_type t, toast_message t) else None)"

subsection \<open>The Tasks page: search, filter and pages\<close>

datatype completion = all | completed | pending

datatype param = S string | F completion | N int

record visit_options =
  preserveState :: bool
  preserveScroll :: bool

record get_request =
  url :: string
  params :: "(string \<times> param) list"
  options :: visit_options

record Filters =
  searchTerm :: string
  completionFilter :: completion

definition handleSearch :: "Filters \<Rightarrow> Filters \<times> get_request" where
  "handleSearch s =
     (s, \<lparr>url = ''/tasks'',
          params = [(''search'', S (searchTerm s)), (''filter'', F (completionFilter s))],
          options = \<lparr>preserveState = True, preserveScroll = True\<rparr>\<rparr>)"

definition handleFilterChange :: "completion \<Rightarrow> Filters \<Rightarrow> Filters \<times> get_request" where
  "handleFilterChange v s =
     (s\<lparr>completionFilter := v\<rparr>,
      \<lparr>url = ''/tasks'',
       params = [(''search'', S (searchTerm s)), (''filter'', F v)],
       options = \<lparr>preserveState = True, preserveScroll = True\<rparr>\<rparr>)"

definition handlePageChange :: "int \<Rightarrow> Filters \<Rightarrow> Filters \<times> get_request" where
  "handlePageChange page s =
     (s, \<lparr>url = ''/tasks'',
          params = [(''page'', N page), (''search'', S (searchTerm s)),
                    (''filter'', F (completionFilter s))],
          options = \<lparr>preserveState = True, preserveScroll = True\<rparr>\<rparr>)"

text \<open>
  The page as the browser holds it: the props of the last response (the page of tasks with
  its pagination envelope, and the filters), the component's local state and the scroll
  position. When the response to a visit arrives the props are the response's; the
  component keeps its local state under \<^verbatim>\<open>preserveState\<close> and is created anew from the
  props otherwise (\<^verbatim>\<open>useState(filters.search)\<close>, \<^verbatim>\<open>useState(filters.filter)\<close>); the scroll
  position stays under \<^verbatim>\<open>preserveScroll\<close> and goes to the top otherwise.
\<close>

record Paginated =
  pg_data :: "TaskItem list"
  pg_current_page :: int
  pg_last_page :: int
  pg_per_page :: int
  pg_total :: int
  pg_from :: int
  pg_to :: int

record Props =
  p_tasks :: Paginated
  p_filters :: Filters

record TasksPage =
  props :: Props
  local_state :: Filters
  scroll :: nat

definition receive_response :: "visit_options \<Rightarrow> Props \<Rightarrow> TasksPage \<Rightarrow> TasksPage" where
  "receive_response opts new pg =
     \<lparr>props = new,
      local_state = (if preserveState opts then local_state pg else p_filters new),
      scroll = (if preserveScroll opts then scroll pg else 0)\<rparr>"

section \<open>Properties of the server side\<close>

lemma set_insert_desc: "set (insert_desc k x xs) = insert x (set xs)"
  by (induction xs) auto

lemma set_orderBy_desc: "set (orderBy_desc k xs) = set xs"
  by (induction xs) (auto simp: set_insert_desc)

lemma length_insert_desc: "length (insert_desc k x xs) = Suc (length xs)"
  by (induction xs) auto

lemma length_orderBy_desc: "length (orderBy_desc k xs) = length xs"
  by (induction xs) (auto simp: length_insert_desc)

lemmas validation_defs =
  validate_def field_errors_def validate_title_def validate_description_def
  validateRequired_def trim_def php_space_def

lemmas controller_defs =
  PUT_lists_def DELETE_lists_def GET_lists_def resolve_def ListController_index_def
  ListController_store_def ListController_update_def ListController_destroy_def
  TaskList_create_def TaskList_update_def fill_def next_id_def

subsection \<open>Ownership on the write paths\<close>

text \<open>
  The read path filters by the caller: \<open>GET_lists\<close> shows a user only the rows they own.
\<close>

lemma index_scoped: "set (GET_lists auth_id rows) = {l \<in> set rows. tl_user_id l = auth_id}"
  by (auto simp: GET_lists_def ListController_index_def)

text \<open>
  Claim C1: an update or a delete of a list that exists but belongs to another user answers
  NotFound and leaves the stored list as it was, as the read path does. The write paths do
  not do this. With one list, owned by user 1, user 2 sees no list on the read path, yet
  user 2's update of list 1 succeeds, rewrites the title and makes user 2 the owner, and
  user 2's delete of list 1 succeeds and removes the row.
\<close>

theorem foreign_list_update_delete:
  "GET_lists 2
     [\<lparr>tl_id = 1, tl_title = ''groceries'', tl_description = None, tl_user_id = 1,
       tl_created_at = 10, tl_updated_at = 10\<rparr>] = [] \<and>
   PUT_lists 2 50 1 \<lparr>req_title = Str ''mine'', req_description = Missing\<rparr>
     [\<lparr>tl_id = 1, tl_title = ''groceries'', tl_description = None, tl_user_id = 1,
       tl_created_at = 10, tl_updated_at = 10\<rparr>] =
     (Inr \<lparr>route = ''lists.index'', flashed = [(''success'', ''List updated successfully'')]\<rparr>,
      [\<lparr>tl_id = 1, tl_title = ''mine'', tl_description = None, tl_user_id = 2,
        tl_created_at = 10, tl_updated_at = 50\<rparr>]) \<and>
   DELETE_lists 2 1
     [\<lparr>tl_id = 1, tl_title = ''groceries'', tl_description = None, tl_user_id = 1,
       tl_created_at = 10, tl_updated_at = 10\<rparr>] =
     (Inr \<lparr>route = ''lists.index'', flashed = [(''success'', ''List Deleted Successfully'')]\<rparr>, [])"
  by (simp add: controller_defs validation_defs)

text \<open>
  When the caller does own the list, the update keeps every key, owner and creation time,
  and leaves every other row as it was.
\<close>

lemma resolve_Some: "resolve k rows = Some l \<Longrightarrow> l \<in> set rows \<and> tl_id l = k"
  by (auto simp: resolve_def find_Some_iff)

lemma same_key_same_row:
  "distinct (map tl_id rows) \<Longrightarrow> l \<in> set rows \<Longrightarrow> x \<in> set rows \<Longrightarrow> tl_id x = tl_id l \<Longrightarrow> x = l"
  by (meson distinct_map inj_on_def)

lemma filter_map_replace:
  "tl_id c = k \<Longrightarrow>
   filter (\<lambda>x. tl_id x \<noteq> k) (map (\<lambda>r. if tl_id r = k then c else r) xs) =
   filter (\<lambda>x. tl_id x \<noteq> k) xs"
  by (induction xs) auto

lemma update_by_owner_frame:
  assumes d: "distinct (map tl_id rows)" and r: "resolve k rows = Some l"
    and o: "tl_user_id l = auth_id"
  shows "map tl_id (snd (PUT_lists auth_id now k rq rows)) = map tl_id rows"
    and "map tl_user_id (snd (PUT_lists auth_id now k rq rows)) = map tl_user_id rows"
    and "map tl_created_at (snd (PUT_lists auth_id now k rq rows)) = map tl_created_at rows"
    and "filter (\<lambda>x. tl_id x \<noteq> k) (snd (PUT_lists auth_id now k rq rows)) =
         filter (\<lambda>x. tl_id x \<noteq> k) rows"
proof -
  from r have l: "l \<in> set rows" "tl_id l = k" by (simp_all add: resolve_Some)
  have same: "x = l" if "x \<in> set rows" "tl_id x = tl_id l" for x
    using same_key_same_row [OF d l(1) that] .
  show "map tl_id (snd (PUT_lists auth_id now k rq rows)) = map tl_id rows"
    using r by (auto simp: PUT_lists_def ListController_update_def TaskList_update_def fill_def
        split: sum.splits)
  show "map tl_user_id (snd (PUT_lists auth_id now k rq rows)) = map tl_user_id rows"
    using r o same by (auto simp: PUT_lists_def ListController_update_def TaskList_update_def
        fill_def split: sum.splits)
  show "map tl_created_at (snd (PUT_lists auth_id now k rq rows)) = map tl_created_at rows"
    using r same by (auto simp: PUT_lists_def ListController_update_def TaskList_update_def
        fill_def split: sum.splits)
  show "filter (\<lambda>x. tl_id x \<noteq> k) (snd (PUT_lists auth_id now k rq rows)) =
         filter (\<lambda>x. tl_id x \<noteq> k) rows"
    using r l(2) by (auto simp: PUT_lists_def ListController_update_def TaskList_update_def
        filter_map_replace fill_def split: sum.splits)
qed

text \<open>
  Claim C2: a successful update changes only the title, the description and
  \<^verbatim>\<open>updated_at\<close> of the list; in particular its owner stays. The update writes the caller
  into \<^verbatim>\<open>user_id\<close>, and nothing has checked that the caller is the owner: list 3 of user 4,
  updated by user 7, belongs to user 7 afterwards.
\<close>

theorem update_moves_ownership:
  "map tl_user_id
     (snd (PUT_lists 7 50 3 \<lparr>req_title = Str ''plans'', req_description = Str ''new''\<rparr>
        [\<lparr>tl_id = 3, tl_title = ''plans'', tl_description = Some ''old'', tl_user_id = 4,
          tl_created_at = 10, tl_updated_at = 10\<rparr>])) = [7]"
  by (simp add: controller_defs validation_defs)

subsection \<open>Ordering\<close>

lemma sorted_insert_desc:
  "sorted_wrt (\<lambda>a b. newer (k a) (k b)) xs \<Longrightarrow>
   sorted_wrt (\<lambda>a b. newer (k a) (k b)) (insert_desc k x xs)"
  by (induction xs) (auto simp: set_insert_desc newer_def)

lemma sorted_orderBy_desc: "sorted_wrt (\<lambda>a b. newer (k a) (k b)) (orderBy_desc k xs)"
  by (induction xs) (auto simp: sorted_insert_desc)

text \<open>The dashboard's lists are the caller's, newest first.\<close>

lemma dashboard_lists_sorted:
  "sorted_wrt (\<lambda>a b. newer (tl_updated_at a, tl_created_at a) (tl_updated_at b, tl_created_at b))
     (d_lists (DashboardController_index uid all_lists all_tasks))"
  by (simp add: DashboardController_index_def Let_def sorted_orderBy_desc)

lemma dashboard_lists_scoped:
  "set (d_lists (DashboardController_index uid all_lists all_tasks)) =
   {l \<in> set all_lists. tl_user_id l = uid}"
  by (auto simp add: DashboardController_index_def Let_def set_orderBy_desc)

text \<open>
  Claim C3: the collection of \<^verbatim>\<open>GET /lists\<close> is sorted by \<^verbatim>\<open>updated_at\<close> descending, then
  \<^verbatim>\<open>created_at\<close> descending, so a list just created comes first. The dashboard sorts so;
  \<^verbatim>\<open>ListController::index\<close> does not sort. User 1 owns one list, written at time 10, and
  creates a second at time 20: \<^verbatim>\<open>GET /lists\<close> returns the old list first and the new one
  last.
\<close>

theorem lists_index_storage_order:
  "GET_lists 1
     (snd (ListController_store 1 20 \<lparr>req_title = Str ''errands'', req_description = Missing\<rparr>
        [\<lparr>tl_id = 1, tl_title = ''groceries'', tl_description = None, tl_user_id = 1,
          tl_created_at = 10, tl_updated_at = 10\<rparr>])) =
     [\<lparr>tl_id = 1, tl_title = ''groceries'', tl_description = None, tl_user_id = 1,
       tl_created_at = 10, tl_updated_at = 10\<rparr>,
      \<lparr>tl_id = 2, tl_title = ''errands'', tl_description = None, tl_user_id = 1,
       tl_created_at = 20, tl_updated_at = 20\<rparr>]"
  by (simp add: controller_defs validation_defs)

subsection \<open>Completed and pending tasks\<close>

text \<open>
  Claim C4: for every list of tasks (the completion flag is a boolean), the completed tasks
  and the pending tasks are disjoint and together are all the tasks, and the two counts add
  up to the total; so do the three task counts of the dashboard.
\<close>

theorem completed_pending_partition:
  "set (where_is_completed True ts) \<inter> set (where_is_completed False ts) = {} \<and>
   set (where_is_completed True ts) \<union> set (where_is_completed False ts) = set ts \<and>
   length (where_is_completed True ts) + length (where_is_completed False ts) = length ts \<and>
   completedTasks (d_stats (DashboardController_index uid all_lists all_tasks)) +
   pendingTasks (d_stats (DashboardController_index uid all_lists all_tasks)) =
   totalTasks (d_stats (DashboardController_index uid all_lists all_tasks))"
proof -
  have len: "length (where_is_completed True xs) + length (where_is_completed False xs) = length xs"
    for xs
    unfolding where_is_completed_def by (induction xs) auto
  have disj: "set (where_is_completed True ts) \<inter> set (where_is_completed False ts) = {}"
    unfolding where_is_completed_def by auto
  have cover: "set (where_is_completed True ts) \<union> set (where_is_completed False ts) = set ts"
    unfolding where_is_completed_def by auto
  have st: "completedTasks (d_stats (DashboardController_index uid all_lists all_tasks)) +
   pendingTasks (d_stats (DashboardController_index uid all_lists all_tasks)) =
   totalTasks (d_stats (DashboardController_index uid all_lists all_tasks))"
    by (simp add: DashboardController_index_def Let_def len)
  from len disj cover st show ?thesis by simp
qed

subsection \<open>Creating a list\<close>

text \<open>
  Claim C9, as stated: a create request succeeds exactly when its title is a present,
  non-empty string of at most 255 characters. The title of one space is such a string, and
  the request is rejected: \<^verbatim>\<open>required\<close> rejects a string that is blank.
\<close>

theorem blank_title_rejected:
  "'' '' \<noteq> [] \<and> length '' '' \<le> 255 \<and>
   ListController_store 1 20 \<lparr>req_title = Str '' '', req_description = Missing\<rparr> [] =
     (Inl (ValidationError [(''title'', ''required'')]), [])"
  by (simp add: controller_defs validation_defs)

text \<open>
  Claim C9, amended: a create request succeeds exactly when its title is a string that is
  not empty once trimmed and has at most 255 characters, and its description is absent,
  \<^verbatim>\<open>null\<close> or a string. On success one row is added, owned by the caller and carrying the
  title, and the response flashes the one message under \<^verbatim>\<open>success\<close>. On failure the table is
  unchanged and the result is a ValidationError that names the failing fields.
\<close>

theorem store_contract:
  "(case ListController_store auth_id now r rows of
      (Inr resp, rows') \<Rightarrow>
        (\<exists>s. req_title r = Str s \<and> trim s \<noteq> [] \<and> length s \<le> 255) \<and>
        req_description r \<noteq> Other \<and>
        (\<exists>l. rows' = rows @ [l] \<and> tl_user_id l = auth_id \<and> req_title r = Str (tl_title l)) \<and>
        flashed resp = [(''success'', ''List Created Successfully'')]
    | (Inl e, rows') \<Rightarrow>
        \<not> ((\<exists>s. req_title r = Str s \<and> trim s \<noteq> [] \<and> length s \<le> 255) \<and>
           req_description r \<noteq> Other) \<and>
        rows' = rows \<and> e = ValidationError (field_errors r) \<and> field_errors r \<noteq> [] \<and>
        fst ` set (field_errors r) \<subseteq> {''title'', ''description''})"
  by (cases "req_title r"; cases "req_description r")
     (auto simp: ListController_store_def TaskList_create_def validate_def field_errors_def
        validate_title_def validate_description_def validateRequired_def)

theorem store_contract_witness:
  "(case ListController_store 1 20 \<lparr>req_title = Str ''errands'', req_description = Null\<rparr> [] of
      (Inr resp, rows') \<Rightarrow>
        rows' = [\<lparr>tl_id = 1, tl_title = ''errands'', tl_description = None, tl_user_id = 1,
                  tl_created_at = 20, tl_updated_at = 20\<rparr>] \<and>
        flashed resp = [(''success'', ''List Created Successfully'')]
    | (Inl e, rows') \<Rightarrow> False)"
  using store_contract [where auth_id = 1 and now = 20 and rows = "[]"
      and r = "\<lparr>req_title = Str ''errands'', req_description = Null\<rparr>"]
  by (simp add: controller_defs validation_defs)

section \<open>Properties of the client side\<close>

subsection \<open>The dialogs\<close>

text \<open>
  Closing the Lists dialog goes through \<^verbatim>\<open>handleDialogOpenChange\<close>: the dialog is closed,
  no list is being edited and the form has been reset, and the dialog opened next has no
  list to edit.
\<close>

lemma handleDialogOpenChange_close:
  "isDialogOpen (handleDialogOpenChange False s) = False \<and>
   editingList (handleDialogOpenChange False s) = None \<and>
   listForm (handleDialogOpenChange False s) = reset listForm_defaults (listForm s) \<and>
   editingList (onAddList (handleDialogOpenChange False s)) = None"
  by (simp add: handleDialogOpenChange_def closeDialogAndResetForm_def onAddList_def)

lemma toString_12: "toString 12 = ''12''"
  by code_simp

text \<open>
  Claim C5: closing the dialog from any state returns to Idle, clears the edited entity and
  discards the form, so that the dialog opened next starts from the empty defaults, on the
  Lists page and on the Tasks page. The Tasks dialog is closed by \<^verbatim>\<open>setIsOpen\<close> alone. A
  task is opened for editing, the dialog is closed, and the button New Task opens it again:
  the task is still the edited one and the form still holds its fields.
\<close>

theorem tasks_dialog_close_keeps_draft:
  "Tasksindex_run
     [Edit \<lparr>ti_id = 5, ti_title = ''Buy milk'', ti_description = None, ti_is_completed = True,
            ti_due_date = None, ti_lists_id = 12\<rparr>,
      DialogOpenChange False, DialogOpenChange True] =
   \<lparr>isOpen = True,
    editingTask = Some \<lparr>ti_id = 5, ti_title = ''Buy milk'', ti_description = None,
                         ti_is_completed = True, ti_due_date = None, ti_lists_id = 12\<rparr>,
    form = \<lparr>data = \<lparr>tf_title = ''Buy milk'', tf_description = [], tf_due_date = [],
                     tf_lists_id = ''12'', tf_is_completed = True\<rparr>,
            processing = False, in_flight = []\<rparr>\<rparr>"
  by (simp add: Tasksindex_run_def Tasksindex_initial_def handleEdit_def setIsOpen_def or_empty_def
      toString_12)
















subsection \<open>Toasts\<close>

lemmas toast_defs =
  Tasksindex_receive_flash_def Tasksindex_flash_effect_def Tasksindex_timer_effect_def
  Tasksindex_elapse_def Tasksindex_unmount_def Tasksindex_toast_view_def
  ListsIndex_receive_flash_def ListsIndex_flash_effect_def ListsIndex_timer_effect_def
  ListsIndex_elapse_def ListsIndex_unmount_def ListsIndex_toast_view_def showToast_fn_def
  truthy_def

text \<open>Time passing in two steps is time passing in one.\<close>

lemma Tasksindex_elapse_add:
  "Tasksindex_elapse d2 (Tasksindex_elapse d1 t) = Tasksindex_elapse (d1 + d2) t"
  by (auto simp: Tasksindex_elapse_def Tasksindex_timer_effect_def split: option.splits)

lemma ListsIndex_elapse_add:
  "ListsIndex_elapse d2 (ListsIndex_elapse d1 t) = ListsIndex_elapse (d1 + d2) t"
  by (auto simp: ListsIndex_elapse_def ListsIndex_timer_effect_def split: option.splits)

lemma Tasksindex_becomes_visible:
  assumes "\<not> showToast t" "showToast (Tasksindex_receive_flash flash t)"
  shows "timer (Tasksindex_receive_flash flash t) = Some 3000"
    and "showToast (Tasksindex_elapse d (Tasksindex_receive_flash flash t)) = (d < 3000)"
  using assms
  by (auto simp: toast_defs split: option.splits if_splits)

lemma ListsIndex_becomes_visible:
  assumes "\<not> toast_show t" "toast_show (ListsIndex_receive_flash flash t)"
  shows "toast_timer (ListsIndex_receive_flash flash t) = Some 3000"
    and "toast_show (ListsIndex_elapse d (ListsIndex_receive_flash flash t)) = (d < 3000)"
  using assms
  by (auto simp: toast_defs split: option.splits if_splits)

text \<open>
  A message that arrives while the toast is shown replaces the text and leaves the running
  timer as it is.
\<close>

lemma Tasksindex_superseded:
  "showToast t \<Longrightarrow> timer (Tasksindex_receive_flash flash t) = timer t"
  by (auto simp: toast_defs split: option.splits if_splits)

lemma ListsIndex_superseded:
  "toast_show t \<Longrightarrow> toast_timer (ListsIndex_receive_flash flash t) = toast_timer t"
  by (auto simp: toast_defs split: option.splits if_splits)

text \<open>
  Claim C7: whenever a toast becomes visible (it was hidden before the render and is shown
  after it), a timer of 3000 ms is started; with no other event the toast is shown at every
  moment before 3000 ms have passed and hidden from then on. Unmounting cancels the timer:
  none is pending afterwards and the passing of time changes nothing. This holds on the
  Tasks page and on the Lists page.
\<close>

theorem toast_auto_hide:
  "(\<not> showToast t \<and> showToast (Tasksindex_receive_flash flash t) \<longrightarrow>
      timer (Tasksindex_receive_flash flash t) = Some 3000 \<and>
      (\<forall>d. showToast (Tasksindex_elapse d (Tasksindex_receive_flash flash t)) = (d < 3000))) \<and>
   timer (Tasksindex_unmount t) = None \<and>
   Tasksindex_elapse d' (Tasksindex_unmount t) = Tasksindex_unmount t \<and>
   (\<not> toast_show u \<and> toast_show (ListsIndex_receive_flash flash u) \<longrightarrow>
      toast_timer (ListsIndex_receive_flash flash u) = Some 3000 \<and>
      (\<forall>d. toast_show (ListsIndex_elapse d (ListsIndex_receive_flash flash u)) = (d < 3000))) \<and>
   toast_timer (ListsIndex_unmount u) = None \<and>
   ListsIndex_elapse d' (ListsIndex_unmount u) = ListsIndex_unmount u"
proof -
  have a: "timer (Tasksindex_unmount t) = None"
    "Tasksindex_elapse d' (Tasksindex_unmount t) = Tasksindex_unmount t"
    by (simp_all add: Tasksindex_unmount_def Tasksindex_elapse_def)
  have b: "toast_timer (ListsIndex_unmount u) = None"
    "ListsIndex_elapse d' (ListsIndex_unmount u) = ListsIndex_unmount u"
    by (simp_all add: ListsIndex_unmount_def ListsIndex_elapse_def)
  from a b Tasksindex_becomes_visible [of t flash] ListsIndex_becomes_visible [of u flash]
  show ?thesis by blast
qed

theorem toast_auto_hide_witness:
  "showToast (Tasksindex_elapse 2999 (Tasksindex_receive_flash
      (Some \<lparr>f_success = Some ''Task created'', f_error = None\<rparr>)
      \<lparr>showToast = False, toastMessage = [], toastType = success, timer = None\<rparr>)) \<and>
   \<not> showToast (Tasksindex_elapse 3000 (Tasksindex_receive_flash
      (Some \<lparr>f_success = Some ''Task created'', f_error = None\<rparr>)
      \<lparr>showToast = False, toastMessage = [], toastType = success, timer = None\<rparr>)) \<and>
   toast_show (ListsIndex_elapse 2999 (ListsIndex_receive_flash
      (Some \<lparr>f_success = Some ''Task created'', f_error = None\<rparr>)
      \<lparr>toast_show = False, toast_message = [], toast_type = success, toast_timer = None\<rparr>)) \<and>
   \<not> toast_show (ListsIndex_elapse 3000 (ListsIndex_receive_flash
      (Some \<lparr>f_success = Some ''Task created'', f_error = None\<rparr>)
      \<lparr>toast_show = False, toast_message = [], toast_type = success, toast_timer = None\<rparr>))"
proof -
  let ?f = "Some \<lparr>f_success = Some ''Task created'', f_error = None\<rparr>"
  let ?t = "\<lparr>showToast = False, toastMessage = [], toastType = success, timer = None\<rparr>"
  let ?u = "\<lparr>toast_show = False, toast_message = [], toast_type = success, toast_timer = None\<rparr>"
  have 1: "\<not> showToast ?t \<and> showToast (Tasksindex_receive_flash ?f ?t)"
    by (simp add: toast_defs)
  have 2: "\<not> toast_show ?u \<and> toast_show (ListsIndex_receive_flash ?f ?u)"
    by (simp add: toast_defs)
  from 1 2 toast_auto_hide [of ?t ?f _ ?u] show ?thesis by simp
qed

text \<open>
  Claim C10: when the flash prop carries a success message (a string that is not empty),
  then whatever its error field holds, and whatever the toast showed before, the toast
  rendered next is the success message with the type success, on both pages.
\<close>

theorem success_flash_wins:
  "f_success f = Some m \<Longrightarrow> m \<noteq> [] \<Longrightarrow>
   Tasksindex_toast_view (Tasksindex_receive_flash (Some f) t) = Some (success, m) \<and>
   ListsIndex_toast_view (ListsIndex_receive_flash (Some f) u) = Some (success, m)"
  by (simp add: toast_defs)

theorem success_flash_wins_witness:
  "Tasksindex_toast_view (Tasksindex_receive_flash
      (Some \<lparr>f_success = Some ''Saved'', f_error = Some ''Failed''\<rparr>)
      \<lparr>showToast = False, toastMessage = [], toastType = success, timer = None\<rparr>) =
     Some (success, ''Saved'') \<and>
   ListsIndex_toast_view (ListsIndex_receive_flash
      (Some \<lparr>f_success = Some ''Saved'', f_error = Some ''Failed''\<rparr>)
      \<lparr>toast_show = True, toast_message = ''old'', toast_type = error, toast_timer = Some 10\<rparr>) =
     Some (success, ''Saved'')"
  using success_flash_wins [of "\<lparr>f_success = Some ''Saved'', f_error = Some ''Failed''\<rparr>" "''Saved''"
      "\<lparr>showToast = False, toastMessage = [], toastType = success, timer = None\<rparr>"
      "\<lparr>toast_show = True, toast_message = ''old'', toast_type = error, toast_timer = Some 10\<rparr>"]
  by simp

subsection \<open>Search, filter and pages\<close>

text \<open>
  Claim C8, as stated: a request issued on a change of the search or of the status carries
  the full triple of search, status and page. The requests of \<^verbatim>\<open>handleSearch\<close> and of
  \<^verbatim>\<open>handleFilterChange\<close> have no parameter \<^verbatim>\<open>page\<close>.
\<close>

theorem search_request_has_no_page:
  "''page'' \<notin> fst ` set (params (snd (handleSearch
      \<lparr>searchTerm = ''milk'', completionFilter = pending\<rparr>))) \<and>
   ''page'' \<notin> fst ` set (params (snd (handleFilterChange completed
      \<lparr>searchTerm = ''milk'', completionFilter = pending\<rparr>)))"
  by (simp add: handleSearch_def handleFilterChange_def)

text \<open>
  Claim C8, amended: a request issued on a submitted search or on a selected status goes to
  \<^verbatim>\<open>/tasks\<close> with exactly the parameters \<^verbatim>\<open>search\<close> and \<^verbatim>\<open>filter\<close>, holding the current
  search text and the current (for a selection: the selected) status; only a page
  navigation adds \<^verbatim>\<open>page\<close>. Each of the three is sent with \<^verbatim>\<open>preserveState\<close> and
  \<^verbatim>\<open>preserveScroll\<close>, so that its response replaces the props (the page of tasks and its
  pagination envelope) and leaves the local state and the scroll position as they were.
\<close>

theorem list_request_shape:
  "(case handleSearch s of (s', rq) \<Rightarrow>
      s' = s \<and> url rq = ''/tasks'' \<and> map fst (params rq) = [''search'', ''filter''] \<and>
      map_of (params rq) ''search'' = Some (S (searchTerm s')) \<and>
      map_of (params rq) ''filter'' = Some (F (completionFilter s')) \<and>
      receive_response (options rq) new pg = pg\<lparr>props := new\<rparr>) \<and>
   (case handleFilterChange v s of (s', rq) \<Rightarrow>
      s' = s\<lparr>completionFilter := v\<rparr> \<and> url rq = ''/tasks'' \<and>
      map fst (params rq) = [''search'', ''filter''] \<and>
      map_of (params rq) ''search'' = Some (S (searchTerm s')) \<and>
      map_of (params rq) ''filter'' = Some (F (completionFilter s')) \<and>
      receive_response (options rq) new pg = pg\<lparr>props := new\<rparr>) \<and>
   (case handlePageChange p s of (s', rq) \<Rightarrow>
      s' = s \<and> url rq = ''/tasks'' \<and> map fst (params rq) = [''page'', ''search'', ''filter''] \<and>
      map_of (params rq) ''page'' = Some (N p) \<and>
      map_of (params rq) ''search'' = Some (S (searchTerm s')) \<and>
      map_of (params rq) ''filter'' = Some (F (completionFilter s')) \<and>
      receive_response (options rq) new pg = pg\<lparr>props := new\<rparr>)"
  by (simp add: handleSearch_def handleFilterChange_def handlePageChange_def receive_response_def)

end
